theory Spec2Isabelle
  imports Main "HOL-Library.Char_ord" "HOL-Library.List_Lexorder" "HOL-Library.Sublist"
begin

section \<open>Data model\<close>

text \<open>
  A Python \<open>str\<close> is modelled as a \<open>string\<close>; every element stands for one character of
  the Python string, so that \<open>take 40\<close> is the slice \<open>[:40]\<close>.

  The records are the snapshots the controller reads from the API client. Fields that
  share a name in the source carry the record's initial here: \<open>c_title\<close> is
  \<open>TwitchClip.title\<close>, \<open>v_title\<close> is \<open>Video.title\<close>, \<open>b_title\<close> is
  \<open>BroadcasterInfo.title\<close>.
\<close>

record LiveStreamInfo =
  user_name :: string
  title :: string
  viewer_count :: int
  started_at :: string

record ChannelUserFollows =
  to_name :: string
  to_id :: string

record BroadcasterInfo =
  broadcaster_id :: string
  broadcaster_name :: string
  b_title :: string
  game_name :: string

record TwitchClip =
  c_title :: string
  creator_name :: string
  c_view_count :: int
  c_created_at :: string
  c_url :: string
  c_broadcaster_name :: string

record Video =
  v_title :: string
  v_duration :: string
  v_view_count :: int
  v_url :: string

text \<open>
  Everything \<open>App\<close> reads from its collaborators, none of which is part of the sources
  at hand: the icons of the menu (\<open>menu.unicode\<close>) and its back sentinel (\<open>menu_back\<close>
  is \<open>menu.back\<close>), the delimiter and the live icon of the client, the helpers
  \<open>calculate_live_time\<close> and \<open>clean_string\<close>, the name of the player, \<open>tv_join\<close> for
  \<open>self.tv.join\<close> on the URL of the site, and the answers of the API. The API answers are
  one snapshot: the same call gives the same answer during a run.

  \<open>menu_items back items\<close> is the content of the list object \<open>items\<close> after
  \<open>menu.show_items\<close> has returned. The list is handed over by reference, so the menu may
  have changed it (a menu that adds its back entry to the list it is given); the identity
  is the menu that leaves the list alone.
\<close>

record env =
  delimiter :: string
  live_icon :: string
  EYE :: string
  BULLET_ICON :: string
  CLOCK :: string
  CALENDAR :: string
  menu_back :: string
  player_name :: string
  tv_join :: "string \<Rightarrow> string"
  calculate_live_time :: "string \<Rightarrow> string"
  clean_string :: "string \<Rightarrow> string \<Rightarrow> string"
  menu_items :: "bool \<Rightarrow> string list \<Rightarrow> string list"
  follows :: "ChannelUserFollows list"
  followed_streams_live :: "LiveStreamInfo list"
  channels_live_for_menu :: "LiveStreamInfo list"
  information :: "string \<Rightarrow> BroadcasterInfo"
  is_online :: "string \<Rightarrow> bool"
  get_videos :: "string \<Rightarrow> Video list"
  get_clips :: "string \<Rightarrow> TwitchClip list"

section \<open>Formatting\<close>

text \<open>The decimal digits of a number, as an f-string renders an \<open>int\<close>.\<close>

definition digit_char :: "nat \<Rightarrow> char" where
  "digit_char d = ''0123456789'' ! d"

fun str_nat :: "nat \<Rightarrow> string" where
  "str_nat n = (if n < 10 then [digit_char n] else str_nat (n div 10) @ [digit_char (n mod 10)])"

definition str_int :: "int \<Rightarrow> string" where
  "str_int i = (if i < 0 then CHR ''-'' # str_nat (nat (- i)) else str_nat (nat i))"

text \<open>
  The label \<open>merge_with_online\<close> writes for a live stream \<open>c\<close>:
  \<^verbatim>\<open>
  live_since = helpers.calculate_live_time(c.started_at)
  title = f"{live} {c.user_name} {delimiter} {c.title[:40]}"
  info = f"({eye}{c.viewer_count} viewers {delimiter} {live_since})"
  ... f"{title} {info}"
  \<close>
\<close>

definition live_title :: "env \<Rightarrow> LiveStreamInfo \<Rightarrow> string" where
  "live_title e c =
     live_icon e @ '' '' @ user_name c @ '' '' @ delimiter e @ '' '' @ take 40 (title c)"

definition live_info :: "env \<Rightarrow> LiveStreamInfo \<Rightarrow> string" where
  "live_info e c =
     ''('' @ EYE e @ str_int (viewer_count c) @ '' viewers '' @ delimiter e @ '' ''
       @ calculate_live_time e (started_at c) @ '')''"

definition live_label :: "env \<Rightarrow> LiveStreamInfo \<Rightarrow> string" where
  "live_label e c = live_title e c @ '' '' @ live_info e c"

section \<open>The live-status merger\<close>

text \<open>\<open>list.index(x)\<close>: the position of the first element equal to \<open>x\<close>.\<close>

fun index :: "'a list \<Rightarrow> 'a \<Rightarrow> nat" where
  "index [] x = 0"
| "index (y # ys) x = (if y = x then 0 else Suc (index ys x))"

text \<open>
  One round of the loop of \<open>merge_with_online\<close>. \<open>index\<close> is only called on a name
  that is in the list, so its \<open>ValueError\<close> cannot happen.
\<close>

definition merge_step :: "env \<Rightarrow> LiveStreamInfo \<Rightarrow> string list \<Rightarrow> string list" where
  "merge_step e c follows_names =
     (if user_name c \<in> set follows_names
      then follows_names[index follows_names (user_name c) := live_label e c]
      else follows_names)"

text \<open>The loop over \<open>twitch.channels.followed_streams_live\<close>, in the order of that list.\<close>

definition merge_with_online :: "env \<Rightarrow> string list \<Rightarrow> string list" where
  "merge_with_online e follows_names = fold (merge_step e) (followed_streams_live e) follows_names"

section \<open>Strings and dictionaries of Python\<close>

text \<open>\<open>s.find(sub)\<close>: the first position at which \<open>sub\<close> starts in \<open>s\<close>.\<close>

fun str_find :: "string \<Rightarrow> string \<Rightarrow> nat option" where
  "str_find sub [] = (if sub = [] then Some 0 else None)"
| "str_find sub (x # xs) =
     (if prefix sub (x # xs) then Some 0 else map_option Suc (str_find sub xs))"

text \<open>\<open>sub in s\<close> on strings.\<close>

definition str_in :: "string \<Rightarrow> string \<Rightarrow> bool" where
  "str_in sub s = (str_find sub s \<noteq> None)"

text \<open>
  \<open>s.split(sep)\<close> for a separator that is not empty: cut at each occurrence of \<open>sep\<close>,
  from the left. Python raises \<open>ValueError\<close> for the empty separator, which is
  \<open>str_split\<close> below.
\<close>

function split_ne :: "string \<Rightarrow> string \<Rightarrow> string list" where
  "split_ne sep s =
     (if sep = [] then [s]
      else (case str_find sep s of
              None \<Rightarrow> [s]
            | Some i \<Rightarrow> take i s # split_ne sep (drop (i + length sep) s)))"
  by pat_completeness auto

lemma str_find_bound: "str_find sub s = Some i \<Longrightarrow> i + length sub \<le> length s"
proof (induction s arbitrary: i)
  case Nil
  then show ?case by (simp split: if_splits)
next
  case (Cons x xs)
  show ?case
  proof (cases "prefix sub (x # xs)")
    case True
    then have "length sub \<le> length (x # xs)" by (rule prefix_length_le)
    with True Cons.prems show ?thesis by simp
  next
    case False
    with Cons.prems obtain j where "str_find sub xs = Some j" "i = Suc j" by auto
    with Cons.IH show ?thesis by simp
  qed
qed

termination split_ne
proof (relation "measure (\<lambda>(sep, s). length s)")
  show "wf (measure (\<lambda>(sep, s). length s))" by simp
next
  fix sep s :: string and i :: nat
  assume "sep \<noteq> []" and "str_find sep s = Some i"
  then have "0 < length sep" and "i + length sep \<le> length s"
    by (simp_all add: str_find_bound)
  then have "length s - (i + length sep) < length s"
    by arith
  then show "((sep, drop (i + length sep) s), (sep, s)) \<in> measure (\<lambda>(sep, s). length s)"
    by simp
qed

declare split_ne.simps [simp del]
declare str_nat.simps [simp del]

datatype exn = NotImplementedError | KeyError string | IndexError | ValueError

definition str_split :: "string \<Rightarrow> string \<Rightarrow> exn + string list" where
  "str_split sep s = (if sep = [] then Inl ValueError else Inr (split_ne sep s))"

text \<open>\<open>xs[i]\<close> for an index that is not negative.\<close>

definition list_get :: "'a list \<Rightarrow> nat \<Rightarrow> exn + 'a" where
  "list_get xs i = (if i < length xs then Inr (xs ! i) else Inl IndexError)"

text \<open>
  \<open>s.strip()\<close>: the white space of Python among the characters a \<open>char\<close> can stand for.
\<close>

definition is_space :: "char \<Rightarrow> bool" where
  "is_space c = ((of_char c :: nat) \<in> {9, 10, 11, 12, 13, 28, 29, 30, 31, 32, 133, 160})"

definition strip :: "string \<Rightarrow> string" where
  "strip s = rev (dropWhile is_space (rev (dropWhile is_space s)))"

text \<open>
  A \<open>dict\<close> built by inserting the pairs of a list in order: an insertion under a key
  that is there already replaces the value and keeps the key's place. \<open>dict_keys\<close> is
  \<open>list(d.keys())\<close>, \<open>dict_get\<close> is \<open>d[k]\<close>, \<open>dict_values\<close> is \<open>list(d.values())\<close>.
\<close>

definition dict_keys :: "('k \<times> 'v) list \<Rightarrow> 'k list" where
  "dict_keys kvs = rev (remdups (rev (map fst kvs)))"

definition dict_lookup :: "('k \<times> 'v) list \<Rightarrow> 'k \<Rightarrow> 'v option" where
  "dict_lookup kvs k = map_of (rev kvs) k"

definition dict_values :: "('k \<times> 'v) list \<Rightarrow> 'v list" where
  "dict_values kvs = List.map_filter (dict_lookup kvs) (dict_keys kvs)"

section \<open>Effects\<close>

text \<open>
  What the controller does to the outside, in the order it does it: every call of
  \<open>menu.show_items\<close> (\<open>MenuShown\<close> when it comes from \<open>App.show_items\<close>, with the prompt,
  the back flag and the \<open>mesg\<close> keyword; \<open>MenuShownPlain\<close> for the call of
  \<open>show_no_results_message\<close>, which passes the items only), every log line, every
  notification, every start of the player, and every request to the API.
\<close>

datatype event =
    MenuShown "string list" string bool "string option"
  | MenuShownPlain "string list"
  | LogInfo string
  | LogWarning string
  | LogDebug string
  | Notification string
  | PlayerPlay string
  | Launch string
  | FetchFollows
  | FetchFollowedStreamsLive
  | FetchChannelsLiveForMenu
  | FetchInformation string
  | FetchIsOnline string
  | FetchVideos string
  | FetchClips string

text \<open>
  The state of a run: the answers the menu will still give (one per call of
  \<open>menu.show_items\<close>), the events so far, and the attribute \<open>_user_follows\<close> of \<open>App\<close>.
\<close>

record state =
  replies :: "string list"
  trace :: "event list"
  cached_user_follows :: "ChannelUserFollows list option"

text \<open>
  How a call ends: it returns a value, \<open>sys.exit(n)\<close>, an exception, the menu never
  answers (the answers are used up), or the fuel of the model is used up.
\<close>

datatype 'a result = Ret 'a | Exit int | Raised exn | NoReply | OutOfFuel

type_synonym 'a act = "state \<Rightarrow> 'a result \<times> state"

definition ret :: "'a \<Rightarrow> 'a act" where
  "ret x st = (Ret x, st)"

definition sys_exit :: "int \<Rightarrow> 'a act" where
  "sys_exit n st = (Exit n, st)"

definition raise :: "exn \<Rightarrow> 'a act" where
  "raise x st = (Raised x, st)"

definition bind :: "'a act \<Rightarrow> ('a \<Rightarrow> 'b act) \<Rightarrow> 'b act" where
  "bind m f st =
     (case m st of
        (Ret x, st') \<Rightarrow> f x st'
      | (Exit n, st') \<Rightarrow> (Exit n, st')
      | (Raised x, st') \<Rightarrow> (Raised x, st')
      | (NoReply, st') \<Rightarrow> (NoReply, st')
      | (OutOfFuel, st') \<Rightarrow> (OutOfFuel, st'))"

definition lift :: "exn + 'a \<Rightarrow> 'a act" where
  "lift r = (case r of Inl x \<Rightarrow> raise x | Inr v \<Rightarrow> ret v)"

definition emit :: "event \<Rightarrow> unit act" where
  "emit ev st = (Ret (), st\<lparr>trace := trace st @ [ev]\<rparr>)"

text \<open>One call of \<open>menu.show_items\<close>: the event, and the next answer of the menu.\<close>

definition menu_call :: "event \<Rightarrow> string act" where
  "menu_call ev st =
     (case replies st of
        [] \<Rightarrow> (NoReply, st\<lparr>trace := trace st @ [ev]\<rparr>)
      | r # rs \<Rightarrow> (Ret r, st\<lparr>replies := rs, trace := trace st @ [ev]\<rparr>))"

section \<open>The selection gate\<close>

text \<open>
  The second action of a \<open>bind\<close> only runs in the state the first one returned in; the
  termination proofs below need to know it.
\<close>

lemma bind_cong [fundef_cong]:
  "m st = m' st' \<Longrightarrow> (\<And>x s. m' st' = (Ret x, s) \<Longrightarrow> f x s = f' x s) \<Longrightarrow> bind m f st = bind m' f' st'"
  by (auto simp: bind_def split: prod.splits result.splits)

text \<open>
  \<open>App.show_items\<close> and \<open>App.handle_missing_option\<close>. The informational screen of
  \<open>handle_missing_option\<close> is shown through \<open>App.show_items\<close> again, so the two call each
  other; every call uses up an answer of the menu first.
  \<^verbatim>\<open>
  selected = self.menu.show_items(self._executor, items, prompt=prompt, back=back, **kwargs)
  if selected not in items:
      self.handle_missing_option(selected)
      if fallback_fn:
          fallback_fn()
      sys.exit(1)
  if selected == self.menu.back and fallback_fn is not None:
      fallback_fn()
  return selected
  \<close>
\<close>

definition missing_option_log :: "string \<Rightarrow> string" where
  "missing_option_log selected = ''Option [bold yellow]'' @ selected @ ''[/] not found.''"

definition missing_option_item :: "string \<Rightarrow> string" where
  "missing_option_item selected = ''Option '' @ [CHR 0x27] @ selected @ [CHR 0x27] @ '' selected not found.''"

function show_items :: "env \<Rightarrow> string list \<Rightarrow> unit act option \<Rightarrow> string \<Rightarrow> bool \<Rightarrow> string option \<Rightarrow> string act"
  and handle_missing_option :: "env \<Rightarrow> string \<Rightarrow> unit act"
where
  "show_items e items fallback_fn prompt back mesg st =
     bind (menu_call (MenuShown items prompt back mesg)) (\<lambda>selected st1.
       if selected \<notin> set (menu_items e back items)
       then bind (handle_missing_option e selected) (\<lambda>_.
              bind (case fallback_fn of Some f \<Rightarrow> f | None \<Rightarrow> ret ()) (\<lambda>_.
                sys_exit 1)) st1
       else bind (if selected = menu_back e \<and> fallback_fn \<noteq> None
                  then the fallback_fn else ret ()) (\<lambda>_.
              ret selected) st1) st"
| "handle_missing_option e selected st =
     bind (emit (LogWarning (missing_option_log selected))) (\<lambda>_ st1.
       bind (show_items e [missing_option_item selected] None ''twitch:'' False None) (\<lambda>_.
         ret ()) st1) st"
  by pat_completeness auto
termination
  apply (relation "measure (\<lambda>x. case x of Inl (e, items, fb, p, b, m, st) \<Rightarrow> 2 * length (replies st) | Inr (e, sel, st) \<Rightarrow> 2 * length (replies st) + 1)")
    apply simp
   apply (auto simp: menu_call_def emit_def split: list.splits)
  done


section \<open>The screens\<close>

definition dict_get :: "(string \<times> 'v) list \<Rightarrow> string \<Rightarrow> exn + 'v" where
  "dict_get kvs k = (case dict_lookup kvs k of None \<Rightarrow> Inl (KeyError k) | Some v \<Rightarrow> Inr v)"

definition show_no_results_message :: "string \<Rightarrow> unit act" where
  "show_no_results_message log_msg =
     bind (emit (LogWarning log_msg)) (\<lambda>_.
       bind (menu_call (MenuShownPlain [log_msg])) (\<lambda>_. ret ()))"

text \<open>
  The property \<open>user_follows\<close>. The collection of follows is the list of its elements in
  the order of iteration. \<open>if not self._user_follows\<close> holds for \<open>None\<close> and for an empty
  collection; then \<open>self.twitch.channels.follows\<close> is read and stored.
  \<^verbatim>\<open>
  if not self._user_follows:
      self._user_follows = self.twitch.channels.follows
      return self._user_follows
  return self._user_follows
  \<close>
\<close>

definition user_follows :: "env \<Rightarrow> ChannelUserFollows list act" where
  "user_follows e st =
     (case cached_user_follows st of
        Some (f # fs) \<Rightarrow> (Ret (f # fs), st)
      | _ \<Rightarrow> (Ret (follows e),
              st\<lparr>trace := trace st @ [FetchFollows], cached_user_follows := Some (follows e)\<rparr>))"

definition play_stream_selected :: "env \<Rightarrow> string \<Rightarrow> unit act" where
  "play_stream_selected e stream =
     bind (emit (LogInfo (''[yellow]Opening[/] [red bold]'' @ stream @ ''[/] with [green]''
                          @ player_name e @ ''[/]''))) (\<lambda>_.
       bind (emit (Notification (''Opening stream <b>'' @ stream @ ''</b>''))) (\<lambda>_.
         emit (PlayerPlay (tv_join e stream))))"

definition play_clip_selected :: "env \<Rightarrow> TwitchClip \<Rightarrow> unit act" where
  "play_clip_selected e clip =
     bind (emit (LogInfo (''[yellow]Opening[/] clip [red bold]'' @ take 40 (c_title clip)
                          @ ''...[/] with [green]'' @ player_name e @ ''[/]''))) (\<lambda>_.
       bind (emit (Notification (''Opening clip <b>'' @ c_broadcaster_name clip @ ''@''
                                 @ c_title clip @ ''</b>''))) (\<lambda>_.
         emit (Launch (c_url clip))))"

definition video_label :: "env \<Rightarrow> nat \<Rightarrow> Video \<Rightarrow> string" where
  "video_label e i v =
     str_nat i @ '' '' @ BULLET_ICON e @ '' '' @ take 50 (v_title v) @ '' '' @ delimiter e
       @ '' '' @ CLOCK e @ v_duration v @ '' ('' @ EYE e @ str_int (v_view_count v) @ '' views)''"

definition clip_title :: "env \<Rightarrow> nat \<Rightarrow> TwitchClip \<Rightarrow> string" where
  "clip_title e idx c =
     str_nat idx @ '' '' @ BULLET_ICON e @ '' '' @ take 40 (c_title c) @ '' createor: ''
       @ creator_name c"

definition clip_info :: "env \<Rightarrow> TwitchClip \<Rightarrow> string" where
  "clip_info e c =
     ''('' @ EYE e @ str_int (c_view_count c) @ '' views '' @ delimiter e @ '' '' @ CALENDAR e
       @ '' '' @ c_created_at c @ '')''"

definition clip_label :: "env \<Rightarrow> nat \<Rightarrow> TwitchClip \<Rightarrow> string" where
  "clip_label e idx c = clip_title e idx c @ '' '' @ clip_info e c"

definition videos_dict :: "env \<Rightarrow> Video list \<Rightarrow> (string \<times> Video) list" where
  "videos_dict e channel_videos = map (\<lambda>(i, v). (video_label e i v, v)) (enumerate 0 channel_videos)"

definition clips_dict :: "env \<Rightarrow> TwitchClip list \<Rightarrow> (string \<times> TwitchClip) list" where
  "clips_dict e clips = map (\<lambda>(idx, c). (clip_label e idx c, c)) (enumerate 0 clips)"

definition menu_info :: "env \<Rightarrow> string \<Rightarrow> BroadcasterInfo \<Rightarrow> string list" where
  "menu_info e user_id channel =
     (let line = (if is_online e user_id
                  then live_icon e @ '' Live Stream: '' @ b_title channel
                  else ''Last Stream: '' @ b_title channel)
      in [''Category: '' @ game_name channel, line, replicate (length line) (CHR ''-''),
          ''Videos: Get videos'', ''Clips: Get clips''])"

definition quoted_prompt :: "string \<Rightarrow> string \<Rightarrow> string" where
  "quoted_prompt name what = [CHR 0x27] @ name @ '' '' @ what @ '':'' @ [CHR 0x27]"

text \<open>
  The screens call each other without bound, so each takes fuel: the depth of nested
  calls of screens it may still reach; with none left the outcome is \<open>OutOfFuel\<close>. A
  fallback is the screen it re-enters, with its arguments, as an action. The consecutive
  \<open>if\<close> statements of \<open>show_info\<close> are not alternatives: each is tested after the one
  before has returned. In \<open>show_clips\<close> there is no \<open>return\<close> after the call of
  \<open>show_info\<close> for an empty list, other than in \<open>show_videos\<close>; \<open>None\<close> and the empty list
  are the two values of \<open>clips\<close> for which \<open>show_clips\<close> fetches.
  \<^verbatim>\<open>
  def show_follows(self):
      follows = {user.to_name: user for user in self.user_follows}
      follows_names = list(follows.keys())
      follows_names = self.merge_with_online(sorted(follows_names))
      selected = self.show_items(follows_names, fallback_fn=self.show_menu,
          prompt="'twitch follows:'", back=True, mesg=...)
      if self.twitch.live_icon in selected:
          selected = selected.split(" ")[1]
          return follows[selected]
      return follows[selected]

  def show_clips(self, channel, clips=None):
      if not clips:
          log.debug(...)
          clips = self.twitch.clips.get_clips(channel.broadcaster_id)
      clips_dict = {}
      for idx, c in enumerate(clips):
          ...
          clips_dict[f"{clip_title} {clip_info}"] = c
      if not clips_dict:
          self.show_no_results_message(...)
          self.show_info(channel.broadcaster_id)
      selected = self.show_items(items=list(clips_dict.keys()),
          fallback_fn=functools.partial(self.show_info, channel.broadcaster_id), ...)
      clip = clips_dict[selected]
      self.play_clip_selected(clip)
      self.show_clips(channel, list(clips_dict.values()))
  \<close>
\<close>

fun show_menu :: "env \<Rightarrow> nat \<Rightarrow> unit act"
  and show_online_follows :: "env \<Rightarrow> nat \<Rightarrow> unit act"
  and show_follows_and_online :: "env \<Rightarrow> nat \<Rightarrow> unit act"
  and show_follows :: "env \<Rightarrow> nat \<Rightarrow> ChannelUserFollows act"
  and show_info :: "env \<Rightarrow> nat \<Rightarrow> string \<Rightarrow> unit act"
  and show_videos :: "env \<Rightarrow> nat \<Rightarrow> BroadcasterInfo \<Rightarrow> unit act"
  and show_clips :: "env \<Rightarrow> nat \<Rightarrow> BroadcasterInfo \<Rightarrow> TwitchClip list option \<Rightarrow> unit act"
where
  "show_menu e 0 = (\<lambda>st. (OutOfFuel, st))"
| "show_menu e (Suc n) =
     (let menu_options = [(BULLET_ICON e @ '' All follows'', show_follows_and_online e n),
                          (BULLET_ICON e @ '' Live followed'', show_online_follows e n)]
      in bind (show_items e (dict_keys menu_options) None ''twitch:'' False None) (\<lambda>selected.
           bind (lift (dict_get menu_options selected)) (\<lambda>action. action)))"
| "show_online_follows e 0 = (\<lambda>st. (OutOfFuel, st))"
| "show_online_follows e (Suc n) =
     bind (emit FetchChannelsLiveForMenu) (\<lambda>_.
       let items = map (\<lambda>channel. (user_name channel, channel)) (channels_live_for_menu e)
       in if items = [] then show_no_results_message ''No online followed channels''
          else bind (show_items e (dict_keys items) (Some (show_menu e n))
                       (quoted_prompt ''twitch'' ''live'') True None) (\<lambda>selected.
                 bind (lift (str_split (delimiter e) (clean_string e selected (live_icon e)))) (\<lambda>parts.
                   bind (lift (list_get parts 0)) (\<lambda>selected.
                     play_stream_selected e (strip selected)))))"
| "show_follows_and_online e 0 = (\<lambda>st. (OutOfFuel, st))"
| "show_follows_and_online e (Suc n) =
     bind (show_follows e n) (\<lambda>follow. show_info e n (to_id follow))"
| "show_follows e 0 = (\<lambda>st. (OutOfFuel, st))"
| "show_follows e (Suc n) =
     bind (user_follows e) (\<lambda>users.
       let follows = map (\<lambda>user. (to_name user, user)) users;
           follows_names = dict_keys follows
       in bind (emit FetchFollowedStreamsLive) (\<lambda>_.
            let follows_names = merge_with_online e (sort follows_names)
            in bind (show_items e follows_names (Some (show_menu e n))
                       (quoted_prompt ''twitch'' ''follows'') True
                       (Some (BULLET_ICON e @ '' Offline and Online channels''))) (\<lambda>selected.
                 if str_in (live_icon e) selected
                 then bind (lift (str_split '' '' selected)) (\<lambda>parts.
                        bind (lift (list_get parts 1)) (\<lambda>selected.
                          lift (dict_get follows selected)))
                 else lift (dict_get follows selected))))"
| "show_info e 0 user_id = (\<lambda>st. (OutOfFuel, st))"
| "show_info e (Suc n) user_id =
     bind (emit (FetchInformation user_id)) (\<lambda>_.
       let channel = information e user_id
       in bind (emit (FetchIsOnline user_id)) (\<lambda>_.
            bind (show_items e (menu_info e user_id channel) (Some (show_follows_and_online e n))
                    (quoted_prompt (broadcaster_name channel) ''info'') True
                    (Some (''Channel '' @ broadcaster_name channel @ '' information''))) (\<lambda>selected.
              bind (if prefix ''Clips'' selected then show_clips e n channel None else ret ()) (\<lambda>_.
                bind (if prefix ''Videos'' selected then show_videos e n channel else ret ()) (\<lambda>_.
                  bind (if prefix ''Last'' selected then raise NotImplementedError else ret ()) (\<lambda>_.
                    bind (if prefix (live_icon e) selected
                          then play_stream_selected e (broadcaster_name channel) else ret ()) (\<lambda>_.
                      show_info e n user_id)))))))"
| "show_videos e 0 channel = (\<lambda>st. (OutOfFuel, st))"
| "show_videos e (Suc n) channel =
     bind (emit (FetchVideos (broadcaster_id channel))) (\<lambda>_.
       let videos_dict = videos_dict e (get_videos e (broadcaster_id channel))
       in if videos_dict = []
          then bind (show_no_results_message
                       (''No available videos from followed channel: '' @ broadcaster_name channel))
                 (\<lambda>_. show_info e n (broadcaster_id channel))
          else bind (show_items e (dict_keys videos_dict)
                       (Some (show_info e n (broadcaster_id channel)))
                       (quoted_prompt (broadcaster_name channel) ''videos'') True
                       (Some (''Showing '' @ str_nat (length (dict_keys videos_dict)) @ '' videos'')))
                 (\<lambda>selected.
                   bind (lift (dict_get videos_dict selected)) (\<lambda>video.
                     bind (play_stream_selected e (v_url video)) (\<lambda>_.
                       show_videos e n channel))))"
| "show_clips e 0 channel clips = (\<lambda>st. (OutOfFuel, st))"
| "show_clips e (Suc n) channel clips =
     bind (case clips of
             Some (c # cs) \<Rightarrow> ret (c # cs)
           | _ \<Rightarrow> bind (emit (LogDebug (''Getting [green bold]clips[/] from channel [red bold]''
                                       @ broadcaster_name channel @ ''[/]''))) (\<lambda>_.
                    bind (emit (FetchClips (broadcaster_id channel))) (\<lambda>_.
                      ret (get_clips e (broadcaster_id channel))))) (\<lambda>clips.
       let clips_dict = clips_dict e clips
       in bind (if clips_dict = []
                then bind (show_no_results_message
                             (''No available clips from followed channel: '' @ broadcaster_name channel))
                       (\<lambda>_. show_info e n (broadcaster_id channel))
                else ret ()) (\<lambda>_.
            bind (show_items e (dict_keys clips_dict)
                    (Some (show_info e n (broadcaster_id channel)))
                    (quoted_prompt (broadcaster_name channel) ''clips'') True
                    (Some (''Showing '' @ str_nat (length (dict_keys clips_dict)) @ '' clips'')))
              (\<lambda>selected.
                bind (lift (dict_get clips_dict selected)) (\<lambda>clip.
                  bind (play_clip_selected e clip) (\<lambda>_.
                    show_clips e n channel (Some (dict_values clips_dict)))))))"



section \<open>Reading a number back\<close>

text \<open>
  The value of a digit and of a string of digits; \<open>nat_of_str\<close> undoes \<open>str_nat\<close>, which is
  why two numbered labels with different numbers differ.
\<close>

definition digit_val :: "char \<Rightarrow> nat" where
  "digit_val c = index ''0123456789'' c"

definition nat_of_str :: "string \<Rightarrow> nat" where
  "nat_of_str s = foldl (\<lambda>a c. 10 * a + digit_val c) 0 s"

section \<open>Concrete inputs\<close>

text \<open>
  An environment for the concrete runs below. The icons are stood in for by ASCII
  characters; the menu leaves the list it is given alone; the API has nothing to report
  unless a run says otherwise.
\<close>

definition example_env :: env where
  "example_env =
     \<lparr>delimiter = ''|'', live_icon = ''*'', EYE = ''o'', BULLET_ICON = ''-'', CLOCK = ''T'',
      CALENDAR = ''C'', menu_back = ''Back'', player_name = ''mpv'',
      tv_join = (\<lambda>s. ''https://www.twitch.tv/'' @ s),
      calculate_live_time = (\<lambda>t. ''1h''),
      clean_string = (\<lambda>s icon. s),
      menu_items = (\<lambda>b items. items),
      follows = [], followed_streams_live = [], channels_live_for_menu = [],
      information = (\<lambda>uid. \<lparr>broadcaster_id = uid, broadcaster_name = uid, b_title = ''t'',
                                game_name = ''g''\<rparr>),
      is_online = (\<lambda>uid. False), get_videos = (\<lambda>uid. []), get_clips = (\<lambda>uid. [])\<rparr>"

definition stream_a :: LiveStreamInfo where
  "stream_a = \<lparr>user_name = ''a'', title = ''x'', viewer_count = 1, started_at = ''t''\<rparr>"

definition stream_a2 :: LiveStreamInfo where
  "stream_a2 = \<lparr>user_name = ''a'', title = ''z'', viewer_count = 3, started_at = ''t''\<rparr>"

text \<open>A stream whose \<open>user_name\<close> is the label \<open>merge_with_online\<close> writes for \<open>stream_a\<close>.\<close>

definition stream_clash :: LiveStreamInfo where
  "stream_clash = \<lparr>user_name = ''* a | x (o1 viewers | 1h)'', title = ''y'', viewer_count = 2,
                    started_at = ''t''\<rparr>"

definition stream_bob :: LiveStreamInfo where
  "stream_bob = \<lparr>user_name = ''bob'', title = ''Speedrun'', viewer_count = 120,
                  started_at = ''t''\<rparr>"


text \<open>
  A followed channel, and an environment in which it is followed and live.
\<close>

definition follow_bob :: ChannelUserFollows where
  "follow_bob = \<lparr>to_name = ''bob'', to_id = ''7''\<rparr>"

definition env_bob :: env where
  "env_bob = example_env\<lparr>follows := [follow_bob], followed_streams_live := [stream_bob]\<rparr>"

text \<open>
  A clip, a video, an environment in which every channel has that one clip, and the
  channel that \<open>information\<close> of \<open>example_env\<close> gives for the id 42.
\<close>

definition clip_a :: TwitchClip where
  "clip_a = \<lparr>c_title = ''funny'', creator_name = ''ann'', c_view_count = 5,
              c_created_at = ''2024'', c_url = ''https://clips.twitch.tv/x'',
              c_broadcaster_name = ''bob''\<rparr>"

definition video_a :: Video where
  "video_a = \<lparr>v_title = ''run'', v_duration = ''1h2m'', v_view_count = 9,
               v_url = ''https://www.twitch.tv/videos/1''\<rparr>"

definition env_clip :: env where
  "env_clip = example_env\<lparr>get_clips := (\<lambda>uid. [clip_a])\<rparr>"

definition channel_42 :: BroadcasterInfo where
  "channel_42 = \<lparr>broadcaster_id = ''42'', broadcaster_name = ''42'', b_title = ''t'',
                  game_name = ''g''\<rparr>"

text \<open>The state at the start of a run in which the menu will give the answers \<open>rs\<close>.\<close>

definition initial_state :: "string list \<Rightarrow> state" where
  "initial_state rs = \<lparr>replies = rs, trace = [], cached_user_follows = None\<rparr>"

section \<open>What the merger writes\<close>

text \<open>
  The label of the first stream of the list that carries the name, or the name itself
  when no stream does.
\<close>

definition annotate :: "env \<Rightarrow> LiveStreamInfo list \<Rightarrow> string \<Rightarrow> string" where
  "annotate e S x = (case find (\<lambda>c. user_name c = x) S of None \<Rightarrow> x | Some c \<Rightarrow> live_label e c)"

lemma index_less: "x \<in> set xs \<Longrightarrow> index xs x < length xs"
  by (induction xs) auto

lemma nth_index: "x \<in> set xs \<Longrightarrow> xs ! index xs x = x"
  by (induction xs) auto

lemma length_merge_step: "length (merge_step e c xs) = length xs"
  by (simp add: merge_step_def)

lemma length_fold_merge_step: "length (fold (merge_step e) S xs) = length xs"
  by (induction S arbitrary: xs) (simp_all add: length_merge_step)

lemma merge_step_other:
  assumes "i < length xs" and "xs ! i \<noteq> user_name c"
  shows "merge_step e c xs ! i = xs ! i"
proof (cases "user_name c \<in> set xs")
  case True
  then have "xs ! index xs (user_name c) = user_name c" by (rule nth_index)
  with assms have "index xs (user_name c) \<noteq> i" by auto
  with True show ?thesis by (simp add: merge_step_def)
next
  case False
  then show ?thesis by (simp add: merge_step_def)
qed

lemma fold_merge_step_absent:
  "i < length xs \<Longrightarrow> xs ! i \<notin> user_name ` set S \<Longrightarrow> fold (merge_step e) S xs ! i = xs ! i"
proof (induction S arbitrary: xs)
  case Nil
  then show ?case by simp
next
  case (Cons c S)
  from Cons.prems have ne: "xs ! i \<noteq> user_name c" and rest: "xs ! i \<notin> user_name ` set S"
    by auto
  from Cons.prems(1) ne have step: "merge_step e c xs ! i = xs ! i" by (rule merge_step_other)
  have "fold (merge_step e) S (merge_step e c xs) ! i = merge_step e c xs ! i"
    using Cons.prems(1) rest step by (intro Cons.IH) (simp_all add: length_merge_step)
  with step show ?case by simp
qed

lemma update_index_map:
  "count_list xs u \<le> 1 \<Longrightarrow> u \<in> set xs \<Longrightarrow> xs[index xs u := v] = map (\<lambda>x. if x = u then v else x) xs"
proof (induction xs)
  case Nil
  then show ?case by simp
next
  case (Cons y ys)
  show ?case
  proof (cases "y = u")
    case True
    with Cons.prems have "count_list ys u = 0" by simp
    then have "u \<notin> set ys" by (simp add: count_list_0_iff)
    then have "map (\<lambda>x. if x = u then v else x) ys = ys" by (induction ys) auto
    with True show ?thesis by simp
  next
    case False
    with Cons show ?thesis by simp
  qed
qed

lemma count_list_map_replace:
  "x \<noteq> v \<Longrightarrow> count_list (map (\<lambda>y. if y = u then v else y) xs) x \<le> count_list xs x"
  by (induction xs) auto

lemma fold_merge_step_map:
  "\<forall>x \<in> user_name ` set S. count_list xs x \<le> 1 \<Longrightarrow>
   \<forall>c \<in> set S. live_label e c \<notin> user_name ` set S \<Longrightarrow>
   fold (merge_step e) S xs = map (annotate e S) xs"
proof (induction S arbitrary: xs)
  case Nil
  then show ?case by (simp add: annotate_def)
next
  case (Cons c S)
  let ?u = "user_name c" and ?v = "live_label e c"
  let ?r = "\<lambda>x. if x = ?u then ?v else x"
  have step: "merge_step e c xs = map ?r xs"
  proof (cases "?u \<in> set xs")
    case True
    moreover from Cons.prems(1) have "count_list xs ?u \<le> 1" by simp
    ultimately show ?thesis by (simp add: merge_step_def update_index_map)
  next
    case False
    then have "map ?r xs = xs" by (induction xs) auto
    with False show ?thesis by (simp add: merge_step_def)
  qed
  have v_fresh: "?v \<notin> user_name ` set S" and v_ne: "?v \<noteq> ?u"
    using Cons.prems(2) by auto
  have cnt: "\<forall>x \<in> user_name ` set S. count_list (map ?r xs) x \<le> 1"
  proof
    fix x assume x: "x \<in> user_name ` set S"
    with v_fresh have "x \<noteq> ?v" by (metis)
    then have "count_list (map ?r xs) x \<le> count_list xs x" by (rule count_list_map_replace)
    also from x Cons.prems(1) have "\<dots> \<le> 1" by auto
    finally show "count_list (map ?r xs) x \<le> 1" .
  qed
  have "fold (merge_step e) S (map ?r xs) = map (annotate e S) (map ?r xs)"
    using cnt Cons.prems(2) by (intro Cons.IH) auto
  moreover have "annotate e S (?r x) = annotate e (c # S) x" for x
  proof (cases "x = ?u")
    case True
    from v_fresh have "find (\<lambda>d. user_name d = ?v) S = None"
      unfolding find_None_iff by (metis imageI)
    with True show ?thesis by (simp add: annotate_def)
  next
    case False
    then show ?thesis by (auto simp add: annotate_def)
  qed
  ultimately show ?case by (simp add: step)
qed


lemma str_nat_digit: "n < 10 \<Longrightarrow> str_nat n = [digit_char n]"
  by (simp add: str_nat.simps)

lemmas example_simps =
  merge_with_online_def merge_step_def live_label_def live_title_def live_info_def
  example_env_def stream_a_def stream_a2_def stream_clash_def stream_bob_def str_int_def
  str_nat_digit digit_char_def

lemma str_nat_120: "str_nat 120 = ''120''"
  by (simp add: str_nat.simps [of 120] str_nat.simps [of 12] str_nat_digit digit_char_def)

lemma distinct_count_list_le: "distinct xs \<Longrightarrow> count_list xs x \<le> 1"
  by (induction xs) (auto simp: count_list_0_iff)

text \<open>
  Claim C1, as the code has it. The merged list is as long as the list of names, and a
  name that no live stream carries stays as it is, at its place. When the names are
  distinct (they are the keys of a dictionary) and no live stream is named like a label the
  merger writes, every name that a live stream carries is replaced, at its place, by the
  label of such a stream.
\<close>

theorem merge_with_online_positions:
  fixes e :: env and L :: "string list"
  defines "S \<equiv> followed_streams_live e"
  shows "length (merge_with_online e L) = length L \<and>
    (\<forall>i < length L. L ! i \<notin> user_name ` set S \<longrightarrow> merge_with_online e L ! i = L ! i) \<and>
    (distinct L \<and> (\<forall>c \<in> set S. live_label e c \<notin> user_name ` set S) \<longrightarrow>
       (\<forall>i < length L. L ! i \<in> user_name ` set S \<longrightarrow>
          (\<exists>c \<in> set S. user_name c = L ! i \<and> merge_with_online e L ! i = live_label e c)))"
proof (intro conjI allI impI)
  show "length (merge_with_online e L) = length L"
    by (simp add: merge_with_online_def length_fold_merge_step)
next
  fix i assume "i < length L" and "L ! i \<notin> user_name ` set S"
  then show "merge_with_online e L ! i = L ! i"
    unfolding merge_with_online_def S_def by (rule fold_merge_step_absent)
next
  fix i
  assume hyp: "distinct L \<and> (\<forall>c \<in> set S. live_label e c \<notin> user_name ` set S)"
    and i: "i < length L" and live: "L ! i \<in> user_name ` set S"
  from hyp have "\<forall>x \<in> user_name ` set S. count_list L x \<le> 1"
    using distinct_count_list_le [of L] by blast
  with hyp have eq: "merge_with_online e L = map (annotate e S) L"
    unfolding merge_with_online_def S_def by (intro fold_merge_step_map) simp_all
  from live obtain c where "find (\<lambda>c. user_name c = L ! i) S = Some c"
    by (cases "find (\<lambda>c. user_name c = L ! i) S") (auto simp: find_None_iff)
  moreover from this have "c \<in> set S" and "user_name c = L ! i"
    by (auto simp: find_Some_iff)
  ultimately show "\<exists>c \<in> set S. user_name c = L ! i \<and> merge_with_online e L ! i = live_label e c"
    using i by (auto simp: eq annotate_def)
qed

text \<open>
  The scenario of the specification: alice, bob and carol, of whom bob is live.
\<close>

theorem merge_with_online_positions_witness:
  "distinct [''alice'', ''bob'', ''carol''] \<and>
   live_label (example_env\<lparr>followed_streams_live := [stream_bob]\<rparr>) stream_bob
     \<notin> user_name ` set [stream_bob] \<and>
   length (merge_with_online (example_env\<lparr>followed_streams_live := [stream_bob]\<rparr>)
     [''alice'', ''bob'', ''carol'']) = 3 \<and>
   merge_with_online (example_env\<lparr>followed_streams_live := [stream_bob]\<rparr>)
     [''alice'', ''bob'', ''carol''] ! 0 = ''alice'' \<and>
   merge_with_online (example_env\<lparr>followed_streams_live := [stream_bob]\<rparr>)
     [''alice'', ''bob'', ''carol''] ! 1 = ''* bob | Speedrun (o120 viewers | 1h)'' \<and>
   merge_with_online (example_env\<lparr>followed_streams_live := [stream_bob]\<rparr>)
     [''alice'', ''bob'', ''carol''] ! 2 = ''carol''"
proof -
  let ?e = "example_env\<lparr>followed_streams_live := [stream_bob]\<rparr>"
  let ?L = "[''alice'', ''bob'', ''carol'']"
  have lbl: "live_label ?e stream_bob = ''* bob | Speedrun (o120 viewers | 1h)''"
    by (simp add: live_label_def live_title_def live_info_def example_env_def stream_bob_def
        str_int_def str_nat_120)
  have S: "followed_streams_live ?e = [stream_bob]" by simp
  have fresh: "\<forall>c \<in> set [stream_bob]. live_label ?e c \<notin> user_name ` set [stream_bob]"
    by (simp add: lbl) (simp add: stream_bob_def)
  have d: "distinct ?L" by simp
  note inst = merge_with_online_positions [of ?e ?L, unfolded S]
  from inst have len: "length (merge_with_online ?e ?L) = 3" by simp
  from inst have n0: "merge_with_online ?e ?L ! 0 = ''alice''"
    by (simp add: stream_bob_def)
  from inst have n2: "merge_with_online ?e ?L ! 2 = ''carol''"
    by (simp add: stream_bob_def)
  from inst d fresh have "merge_with_online ?e ?L ! 1 = live_label ?e stream_bob"
    by (simp add: stream_bob_def)
  with lbl have n1: "merge_with_online ?e ?L ! 1 = ''* bob | Speedrun (o120 viewers | 1h)''"
    by simp
  from fresh have "live_label ?e stream_bob \<notin> user_name ` set [stream_bob]" by simp
  with d len n0 n1 n2 show ?thesis by blast
qed

text \<open>
  Claim C1 as stated fails. With a second stream named like the label of the first, the
  entry at index 0 is neither the name \<open>a\<close> nor the label of the stream named \<open>a\<close>; and
  with the name \<open>a\<close> twice in the list, the second \<open>a\<close> stays although a stream carries it.
\<close>

theorem merge_with_online_positions_counterexample:
  "merge_with_online (example_env\<lparr>followed_streams_live := [stream_a, stream_clash]\<rparr>) [''a'']
     = [''* * a | x (o1 viewers | 1h) | y (o2 viewers | 1h)''] \<and>
   live_label (example_env\<lparr>followed_streams_live := [stream_a, stream_clash]\<rparr>) stream_a
     = ''* a | x (o1 viewers | 1h)'' \<and>
   user_name stream_clash \<noteq> ''a'' \<and>
   merge_with_online (example_env\<lparr>followed_streams_live := [stream_a]\<rparr>) [''a'', ''a'']
     = [''* a | x (o1 viewers | 1h)'', ''a'']"
  by (simp add: example_simps)


lemma index_update_other:
  "w \<noteq> u \<Longrightarrow> v \<noteq> u \<Longrightarrow> index (xs[index xs w := v]) u = index xs u"
  by (induction xs) auto

lemma set_update_other:
  "w \<noteq> u \<Longrightarrow> u \<in> set xs \<Longrightarrow> u \<in> set (xs[index xs w := v])"
  by (induction xs) auto

lemma merge_step_keeps_index:
  assumes "user_name d \<noteq> u" and "live_label e d \<noteq> u" and "u \<in> set xs"
  shows "index (merge_step e d xs) u = index xs u \<and> u \<in> set (merge_step e d xs)"
  using assms by (simp add: merge_step_def index_update_other set_update_other)

lemma fold_merge_step_keeps_index:
  "u \<notin> user_name ` set S \<Longrightarrow> \<forall>d \<in> set S. live_label e d \<noteq> u \<Longrightarrow> u \<in> set xs \<Longrightarrow>
   index (fold (merge_step e) S xs) u = index xs u \<and> u \<in> set (fold (merge_step e) S xs)"
proof (induction S arbitrary: xs)
  case Nil
  then show ?case by simp
next
  case (Cons d S)
  from Cons.prems have "user_name d \<noteq> u" and "live_label e d \<noteq> u" by auto
  with Cons.prems(3)
  have step: "index (merge_step e d xs) u = index xs u \<and> u \<in> set (merge_step e d xs)"
    by (intro merge_step_keeps_index)
  from Cons.prems step
  have "index (fold (merge_step e) S (merge_step e d xs)) u = index (merge_step e d xs) u \<and>
        u \<in> set (fold (merge_step e) S (merge_step e d xs))"
    by (intro Cons.IH) auto
  with step show ?case by simp
qed

text \<open>
  Claim C7, as the code has it: the first stream of the list that carries a followed name
  decides the label at the index of that name. Once the label is written the name is no
  longer in the list, so \<open>c.user_name in follows_names\<close> fails for every later stream of
  that name.
\<close>

theorem merge_with_online_first_wins:
  assumes S: "followed_streams_live e = S1 @ c # S2"
    and first: "user_name c \<notin> user_name ` set S1"
    and followed: "user_name c \<in> set L"
    and fresh: "\<forall>d \<in> set (followed_streams_live e).
                  live_label e d \<notin> user_name ` set (followed_streams_live e)"
  shows "merge_with_online e L ! index L (user_name c) = live_label e c"
proof -
  let ?u = "user_name c" and ?i = "index L (user_name c)"
  let ?xs = "fold (merge_step e) S1 L"
  have u_name: "?u \<in> user_name ` set (followed_streams_live e)" by (simp add: S)
  have "\<forall>d \<in> set S1. live_label e d \<noteq> ?u"
  proof
    fix d assume "d \<in> set S1"
    then have "d \<in> set (followed_streams_live e)" by (simp add: S)
    with fresh have "live_label e d \<notin> user_name ` set (followed_streams_live e)" by blast
    with u_name show "live_label e d \<noteq> ?u" by metis
  qed
  with first followed have before: "index ?xs ?u = ?i \<and> ?u \<in> set ?xs"
    by (intro fold_merge_step_keeps_index)
  have i: "?i < length L" using followed by (rule index_less)
  then have len: "?i < length (merge_step e c ?xs)"
    by (simp add: length_merge_step length_fold_merge_step)
  from before i have at_c: "merge_step e c ?xs ! ?i = live_label e c"
    by (simp add: merge_step_def length_fold_merge_step)
  have "c \<in> set (followed_streams_live e)" by (simp add: S)
  with fresh have "live_label e c \<notin> user_name ` set (followed_streams_live e)" by blast
  then have "live_label e c \<notin> user_name ` set S2" by (auto simp: S)
  with at_c have "merge_step e c ?xs ! ?i \<notin> user_name ` set S2" by simp
  with len have "fold (merge_step e) S2 (merge_step e c ?xs) ! ?i = merge_step e c ?xs ! ?i"
    by (rule fold_merge_step_absent)
  with at_c show ?thesis by (simp add: merge_with_online_def S)
qed

text \<open>
  Two streams named \<open>a\<close>: the label at the index of \<open>a\<close> is the one of the first.
\<close>

theorem merge_with_online_first_wins_witness:
  "followed_streams_live (example_env\<lparr>followed_streams_live := [stream_a, stream_a2]\<rparr>)
     = [] @ stream_a # [stream_a2] \<and>
   user_name stream_a \<notin> user_name ` set [] \<and>
   user_name stream_a \<in> set [''a''] \<and>
   live_label (example_env\<lparr>followed_streams_live := [stream_a, stream_a2]\<rparr>) stream_a
     \<notin> user_name ` set [stream_a, stream_a2] \<and>
   live_label (example_env\<lparr>followed_streams_live := [stream_a, stream_a2]\<rparr>) stream_a2
     \<notin> user_name ` set [stream_a, stream_a2] \<and>
   merge_with_online (example_env\<lparr>followed_streams_live := [stream_a, stream_a2]\<rparr>) [''a'']
     ! index [''a''] (user_name stream_a) = ''* a | x (o1 viewers | 1h)''"
proof -
  let ?e = "example_env\<lparr>followed_streams_live := [stream_a, stream_a2]\<rparr>"
  have S: "followed_streams_live ?e = [] @ stream_a # [stream_a2]" by simp
  have first: "user_name stream_a \<notin> user_name ` set []" by simp
  have followed: "user_name stream_a \<in> set [''a'']" by (simp add: stream_a_def)
  have fresh: "\<forall>d \<in> set (followed_streams_live ?e).
                 live_label ?e d \<notin> user_name ` set (followed_streams_live ?e)"
    by (simp add: example_simps)
  have lbl: "live_label ?e stream_a = ''* a | x (o1 viewers | 1h)''"
    by (simp add: example_simps)
  from merge_with_online_first_wins [OF S first followed fresh] lbl
  have "merge_with_online ?e [''a''] ! index [''a''] (user_name stream_a)
          = ''* a | x (o1 viewers | 1h)''" by simp
  with S first followed fresh show ?thesis by simp
qed

text \<open>
  Claim C7 as stated fails: with two streams named \<open>a\<close> the merged entry is the label of
  the first one (title \<open>x\<close>), not the label of the last one (title \<open>z\<close>).
\<close>

theorem merge_with_online_last_wins_counterexample:
  "merge_with_online (example_env\<lparr>followed_streams_live := [stream_a, stream_a2]\<rparr>) [''a'']
     = [''* a | x (o1 viewers | 1h)''] \<and>
   live_label (example_env\<lparr>followed_streams_live := [stream_a, stream_a2]\<rparr>) stream_a2
     = ''* a | z (o3 viewers | 1h)''"
  by (simp add: example_simps)

section \<open>The selection gate: what an answer leads to\<close>

declare show_items.simps [simp del] handle_missing_option.simps [simp del]


lemma bind_ret [simp]: "bind (ret x) f = f x"
  by (rule ext) (simp add: bind_def ret_def)

lemma bind_emit: "bind (emit ev) f st = f () (st\<lparr>trace := trace st @ [ev]\<rparr>)"
  by (simp add: bind_def emit_def)

lemma bind_not_Ret:
  "m st = (r, st') \<Longrightarrow> (\<forall>x. r \<noteq> Ret x) \<Longrightarrow> \<exists>r'. bind m f st = (r', st') \<and> (\<forall>x. r' \<noteq> Ret x) \<and> (r' = Exit n \<longleftrightarrow> r = Exit n)"
  by (cases r) (auto simp: bind_def)

lemma menu_call_Nil:
  "replies st = [] \<Longrightarrow> menu_call ev st = (NoReply, st\<lparr>trace := trace st @ [ev]\<rparr>)"
  by (simp add: menu_call_def)

lemma menu_call_Cons:
  "replies st = r # rs \<Longrightarrow> menu_call ev st = (Ret r, st\<lparr>replies := rs, trace := trace st @ [ev]\<rparr>)"
  by (simp add: menu_call_def)

lemma show_items_no_reply:
  "replies st = [] \<Longrightarrow>
   show_items e items fb prompt back mesg st
     = (NoReply, st\<lparr>trace := trace st @ [MenuShown items prompt back mesg]\<rparr>)"
  by (simp add: show_items.simps bind_def menu_call_Nil)

lemma show_items_member:
  assumes "replies st = r # rs" and "r \<in> set (menu_items e back items)"
  shows "show_items e items fb prompt back mesg st
     = bind (if r = menu_back e \<and> fb \<noteq> None then the fb else ret ()) (\<lambda>_. ret r)
         (st\<lparr>replies := rs, trace := trace st @ [MenuShown items prompt back mesg]\<rparr>)"
  using assms by (simp add: show_items.simps [of e items fb] bind_def menu_call_Cons)

lemma show_items_missing:
  assumes "replies st = r # rs" and "r \<notin> set (menu_items e back items)"
  shows "show_items e items fb prompt back mesg st
     = bind (handle_missing_option e r) (\<lambda>_.
         bind (case fb of Some f \<Rightarrow> f | None \<Rightarrow> ret ()) (\<lambda>_. sys_exit 1))
         (st\<lparr>replies := rs, trace := trace st @ [MenuShown items prompt back mesg]\<rparr>)"
  using assms by (simp add: show_items.simps [of e items fb] bind_def menu_call_Cons)

lemma handle_missing_option_unfold:
  "handle_missing_option e selected st
     = bind (show_items e [missing_option_item selected] None ''twitch:'' False None)
         (\<lambda>_. ret ()) (st\<lparr>trace := trace st @ [LogWarning (missing_option_log selected)]\<rparr>)"
  by (simp add: handle_missing_option.simps bind_emit)


lemma bind_assoc: "bind (bind m f) g = bind m (\<lambda>x. bind (f x) g)"
  by (rule ext) (auto simp: bind_def split: prod.splits result.splits)

lemma handle_missing_option_eq:
  "handle_missing_option e selected
     = bind (emit (LogWarning (missing_option_log selected))) (\<lambda>_.
         bind (show_items e [missing_option_item selected] None ''twitch:'' False None)
           (\<lambda>_. ret ()))"
  by (rule ext) (simp add: handle_missing_option.simps)

lemma show_items_eval:
  "show_items e items fb prompt bk mesg st =
     (case replies st of
        [] \<Rightarrow> (NoReply, st\<lparr>trace := trace st @ [MenuShown items prompt bk mesg]\<rparr>)
      | r # rs \<Rightarrow>
          (if r \<notin> set (menu_items e bk items)
           then bind (handle_missing_option e r) (\<lambda>_.
                  bind (case fb of Some f \<Rightarrow> f | None \<Rightarrow> ret ()) (\<lambda>_. sys_exit 1))
                  (st\<lparr>replies := rs, trace := trace st @ [MenuShown items prompt bk mesg]\<rparr>)
           else bind (if r = menu_back e \<and> fb \<noteq> None then the fb else ret ()) (\<lambda>_. ret r)
                  (st\<lparr>replies := rs, trace := trace st @ [MenuShown items prompt bk mesg]\<rparr>)))"
  by (cases "replies st")
     (simp_all add: show_items_no_reply show_items_member show_items_missing)

lemmas run_simps =
  show_items_eval handle_missing_option_eq bind_def ret_def sys_exit_def raise_def emit_def
  lift_def menu_call_def initial_state_def example_env_def missing_option_log_def
  missing_option_item_def show_no_results_message_def dict_keys_def dict_get_def
  dict_lookup_def menu_info_def quoted_prompt_def Let_def

lemma show_items_None:
  "\<exists>res st'. show_items e items None prompt bk mesg st = (res, st') \<and>
     prefix (trace st @ [MenuShown items prompt bk mesg]) (trace st') \<and>
     ((\<exists>r. res = Ret r \<and> r \<in> set (menu_items e bk items) \<and>
           st' = st\<lparr>replies := tl (replies st),
                     trace := trace st @ [MenuShown items prompt bk mesg]\<rparr>) \<or>
      res = Exit 1 \<or> (res = NoReply \<and> replies st' = []))"
proof (induction "replies st" arbitrary: st items prompt bk mesg)
  case Nil
  then show ?case by (simp add: show_items_no_reply)
next
  case (Cons r rs)
  let ?st1 = "st\<lparr>replies := rs, trace := trace st @ [MenuShown items prompt bk mesg]\<rparr>"
  from Cons.hyps(2) have rep: "replies st = r # rs" by simp
  show ?case
  proof (cases "r \<in> set (menu_items e bk items)")
    case True
    with rep have "show_items e items None prompt bk mesg st = (Ret r, ?st1)"
      by (simp add: show_items_member ret_def)
    with True rep show ?thesis by simp
  next
    case False
    let ?st2 = "?st1\<lparr>trace := trace ?st1 @ [LogWarning (missing_option_log r)]\<rparr>"
    let ?inner = "show_items e [missing_option_item r] None ''twitch:'' False None"
    have "rs = replies ?st2" by simp
    from Cons.hyps(1) [OF this, of "[missing_option_item r]" "''twitch:''" False None]
    obtain res st' where inner: "?inner ?st2 = (res, st')"
      and tr: "prefix (trace ?st2 @ [MenuShown [missing_option_item r] ''twitch:'' False None])
                 (trace st')"
      and res: "(\<exists>x. res = Ret x) \<or> res = Exit 1 \<or> (res = NoReply \<and> replies st' = [])"
      by blast
    have all: "show_items e items None prompt bk mesg st
        = bind (bind ?inner (\<lambda>_. ret ())) (\<lambda>_. sys_exit 1) ?st2"
      using rep False
      by (simp add: show_items_missing handle_missing_option_eq bind_assoc bind_emit)
    from tr have tr': "prefix (trace st @ [MenuShown items prompt bk mesg]) (trace st')"
      by (auto simp: prefix_def)
    from res consider x where "res = Ret x" | "res = Exit 1" | "res = NoReply" "replies st' = []"
      by blast
    then show ?thesis
    proof cases
      case 1
      with inner all have "show_items e items None prompt bk mesg st = (Exit 1, st')"
        by (simp add: bind_def ret_def sys_exit_def)
      with tr' show ?thesis by simp
    next
      case 2
      with inner all have "show_items e items None prompt bk mesg st = (Exit 1, st')"
        by (simp add: bind_def)
      with tr' show ?thesis by simp
    next
      case 3
      with inner all have "show_items e items None prompt bk mesg st = (NoReply, st')"
        by (simp add: bind_def)
      with tr' 3 show ?thesis by simp
    qed
  qed
qed


text \<open>
  Claim C2, as the code has it. For an answer that is not in the list, \<open>show_items\<close> logs
  it and shows the one-item screen with exactly the text
  \<open>Option '<answer>' selected not found.\<close>, through \<open>App.show_items\<close> itself. It never
  returns to its caller. If that screen is answered with its item, the fallback runs (when
  one is bound) and \<open>sys.exit(1)\<close> follows once the fallback has returned; any other
  answer to it is one more invalid selection of a screen without fallback, which ends in
  exit code 1 as well, unless the menu stops answering. Without a fallback the outcome is
  exit code 1 or a menu that does not answer.
\<close>

theorem show_items_invalid_selection:
  assumes "replies st = r # rs" and "r \<notin> set (menu_items e bk items)"
  shows "\<exists>res st2.
     handle_missing_option e r
       (st\<lparr>replies := rs, trace := trace st @ [MenuShown items prompt bk mesg]\<rparr>) = (res, st2) \<and>
     prefix (trace st @ [MenuShown items prompt bk mesg,
                         LogWarning (missing_option_log r),
                         MenuShown [missing_option_item r] ''twitch:'' False None]) (trace st2) \<and>
     missing_option_item r = ''Option '' @ [CHR 0x27] @ r @ [CHR 0x27] @ '' selected not found.'' \<and>
     (res = Ret () \<and>
        show_items e items fb prompt bk mesg st
          = bind (case fb of Some f \<Rightarrow> f | None \<Rightarrow> ret ()) (\<lambda>_. sys_exit 1) st2 \<or>
      res = Exit 1 \<and> show_items e items fb prompt bk mesg st = (Exit 1, st2) \<or>
      res = NoReply \<and> replies st2 = [] \<and>
        show_items e items fb prompt bk mesg st = (NoReply, st2)) \<and>
     (\<forall>x. fst (show_items e items fb prompt bk mesg st) \<noteq> Ret x) \<and>
     (fb = None \<longrightarrow>
        fst (show_items e items fb prompt bk mesg st) = Exit 1 \<or>
        fst (show_items e items fb prompt bk mesg st) = NoReply \<and>
          replies (snd (show_items e items fb prompt bk mesg st)) = [])"
proof -
  let ?st1 = "st\<lparr>replies := rs, trace := trace st @ [MenuShown items prompt bk mesg]\<rparr>"
  let ?st1' = "?st1\<lparr>trace := trace ?st1 @ [LogWarning (missing_option_log r)]\<rparr>"
  let ?inner = "show_items e [missing_option_item r] None ''twitch:'' False None"
  let ?after = "bind (case fb of Some f \<Rightarrow> f | None \<Rightarrow> ret ()) (\<lambda>_. sys_exit 1)"
  let ?run = "show_items e items fb prompt bk mesg st"
  from show_items_None [of e "[missing_option_item r]" "''twitch:''" False None ?st1']
  obtain res0 st2 where inner: "?inner ?st1' = (res0, st2)"
    and tr: "prefix (trace ?st1' @ [MenuShown [missing_option_item r] ''twitch:'' False None])
               (trace st2)"
    and res0: "(\<exists>x. res0 = Ret x) \<or> res0 = Exit 1 \<or> (res0 = NoReply \<and> replies st2 = [])"
    by blast
  have hmo: "handle_missing_option e r ?st1 = bind ?inner (\<lambda>_. ret ()) ?st1'"
    by (simp add: handle_missing_option_eq bind_emit)
  have run: "?run = bind (handle_missing_option e r) (\<lambda>_. ?after) ?st1"
    using assms by (rule show_items_missing)
  have never: "\<forall>x. fst (?after s) \<noteq> Ret x" for s
    by (cases "(case fb of Some f \<Rightarrow> f | None \<Rightarrow> ret ()) s" rule: prod.exhaust)
       (auto simp: bind_def sys_exit_def split: result.splits)
  have none: "fb = None \<longrightarrow> fst (?after s) = Exit 1" for s
    by (simp add: sys_exit_def)
  from tr have tr': "prefix (trace st @ [MenuShown items prompt bk mesg,
      LogWarning (missing_option_log r),
      MenuShown [missing_option_item r] ''twitch:'' False None]) (trace st2)"
    by simp
  have msg: "missing_option_item r
      = ''Option '' @ [CHR 0x27] @ r @ [CHR 0x27] @ '' selected not found.''"
    by (simp only: missing_option_item_def)
  from res0 consider x where "res0 = Ret x" | "res0 = Exit 1" | "res0 = NoReply" "replies st2 = []"
    by blast
  then show ?thesis
  proof cases
    case 1
    with inner hmo have h: "handle_missing_option e r ?st1 = (Ret (), st2)"
      by (simp add: bind_def ret_def)
    with run have r: "?run = ?after st2" by (simp add: bind_def)
    from never [of st2] have n: "\<forall>x. fst ?run \<noteq> Ret x" by (simp only: r)
    from none [of st2] have o: "fb = None \<longrightarrow> fst ?run = Exit 1" by (simp only: r)
    from h tr' msg r n o show ?thesis by blast
  next
    case 2
    with inner hmo have h: "handle_missing_option e r ?st1 = (Exit 1, st2)"
      by (simp add: bind_def)
    with run have r: "?run = (Exit 1, st2)" by (simp add: bind_def)
    then have n: "\<forall>x. fst ?run \<noteq> Ret x" and o: "fst ?run = Exit 1" by simp_all
    from h tr' msg r n o show ?thesis by blast
  next
    case 3
    with inner hmo have h: "handle_missing_option e r ?st1 = (NoReply, st2)"
      by (simp add: bind_def)
    with run have r: "?run = (NoReply, st2)" by (simp add: bind_def)
    with 3 have n: "\<forall>x. fst ?run \<noteq> Ret x"
      and o: "fst ?run = NoReply \<and> replies (snd ?run) = []" by simp_all
    from h tr' msg r n o 3(2) show ?thesis by blast
  qed
qed

text \<open>
  The scenario of the specification: the options \<open>a\<close> and \<open>b\<close>, the answer \<open>z\<close>, no
  fallback.
\<close>

theorem show_items_invalid_selection_witness:
  "replies (initial_state [''z'', ''Option 'z' selected not found.''])
     = ''z'' # [''Option 'z' selected not found.''] \<and>
   ''z'' \<notin> set (menu_items example_env False [''a'', ''b'']) \<and>
   show_items example_env [''a'', ''b''] None ''twitch:'' False None
     (initial_state [''z'', ''Option 'z' selected not found.''])
   = (Exit 1,
      \<lparr>replies = [],
       trace = [MenuShown [''a'', ''b''] ''twitch:'' False None,
                LogWarning ''Option [bold yellow]z[/] not found.'',
                MenuShown [''Option 'z' selected not found.''] ''twitch:'' False None],
       cached_user_follows = None\<rparr>)"
proof -
  let ?st = "initial_state [''z'', ''Option 'z' selected not found.'']"
  have h1: "replies ?st = ''z'' # [''Option 'z' selected not found.'']"
    by (simp add: initial_state_def)
  have h2: "''z'' \<notin> set (menu_items example_env False [''a'', ''b''])"
    by (simp add: example_env_def)
  from show_items_invalid_selection [OF h1 h2, of "''twitch:''" None None]
  have "\<forall>x. fst (show_items example_env [''a'', ''b''] None ''twitch:'' False None ?st) \<noteq> Ret x"
    by blast
  moreover have "show_items example_env [''a'', ''b''] None ''twitch:'' False None ?st
      = (Exit 1,
         \<lparr>replies = [],
          trace = [MenuShown [''a'', ''b''] ''twitch:'' False None,
                   LogWarning ''Option [bold yellow]z[/] not found.'',
                   MenuShown [''Option 'z' selected not found.''] ''twitch:'' False None],
          cached_user_follows = None\<rparr>)"
    by (simp add: run_simps)
  ultimately show ?thesis using h1 h2 by blast
qed

text \<open>
  Claim C2 as stated fails when a fallback is bound. In the first run the fallback is the
  Info screen of channel 42 (as \<open>show_videos\<close> and \<open>show_clips\<close> bind it); after the
  invalid answer \<open>z\<close> and the informational screen, the Info screen is shown again, the
  user picks its \<open>Last Stream\<close> line, and the run ends in \<open>NotImplementedError\<close>:
  \<open>sys.exit(1)\<close> is never reached. In the second run the fallback is the main menu (as
  \<open>show_follows\<close> and \<open>show_online_follows\<close> bind it): after the informational screen the
  main menu is open and waits for an answer; the process has not ended.
\<close>

theorem show_items_invalid_selection_counterexample:
  "show_items example_env [''a''] (Some (show_info example_env (Suc 0) ''42'')) ''p:'' True None
     (initial_state [''z'', ''Option 'z' selected not found.'', ''Last Stream: t''])
   = (Raised NotImplementedError,
      \<lparr>replies = [],
       trace = [MenuShown [''a''] ''p:'' True None,
                LogWarning ''Option [bold yellow]z[/] not found.'',
                MenuShown [''Option 'z' selected not found.''] ''twitch:'' False None,
                FetchInformation ''42'', FetchIsOnline ''42'',
                MenuShown [''Category: g'', ''Last Stream: t'', ''--------------'',
                           ''Videos: Get videos'', ''Clips: Get clips'']
                  (quoted_prompt ''42'' ''info'') True (Some ''Channel 42 information'')],
       cached_user_follows = None\<rparr>) \<and>
   show_items example_env [''a''] (Some (show_menu example_env (Suc 0))) ''p:'' True None
     (initial_state [''z'', ''Option 'z' selected not found.''])
   = (NoReply,
      \<lparr>replies = [],
       trace = [MenuShown [''a''] ''p:'' True None,
                LogWarning ''Option [bold yellow]z[/] not found.'',
                MenuShown [''Option 'z' selected not found.''] ''twitch:'' False None,
                MenuShown [''- All follows'', ''- Live followed''] ''twitch:'' False None],
       cached_user_follows = None\<rparr>)"
  by (simp add: run_simps)







section \<open>Numbered labels and their dictionaries\<close>

lemma index_nth_distinct: "distinct xs \<Longrightarrow> i < length xs \<Longrightarrow> index xs (xs ! i) = i"
proof (induction xs arbitrary: i)
  case Nil
  then show ?case by simp
next
  case (Cons x xs)
  then show ?case by (cases i) auto
qed

lemma index_digit_char: "d < 10 \<Longrightarrow> digit_val (digit_char d) = d"
  unfolding digit_char_def digit_val_def by (rule index_nth_distinct) simp_all

lemma digit_char_not_space: "d < 10 \<Longrightarrow> digit_char d \<noteq> CHR '' ''"
proof -
  assume "d < 10"
  then have "digit_char d \<in> set ''0123456789''"
    unfolding digit_char_def by (intro nth_mem) simp
  then show ?thesis by auto
qed

lemma nat_of_str_str_nat: "nat_of_str (str_nat n) = n"
proof (induction n rule: str_nat.induct)
  case (1 n)
  show ?case
  proof (cases "n < 10")
    case True
    then show ?thesis by (simp add: str_nat.simps [of n] nat_of_str_def index_digit_char)
  next
    case False
    with 1 have "nat_of_str (str_nat (n div 10)) = n div 10" by simp
    with False show ?thesis
      by (simp add: str_nat.simps [of n] nat_of_str_def index_digit_char)
  qed
qed

lemma str_nat_inject: "str_nat m = str_nat n \<Longrightarrow> m = n"
  by (metis nat_of_str_str_nat)

lemma str_nat_no_space: "CHR '' '' \<notin> set (str_nat n)"
proof (induction n rule: str_nat.induct)
  case (1 n)
  show ?case
  proof (cases "n < 10")
    case True
    then show ?thesis using digit_char_not_space [of n] by (simp add: str_nat.simps [of n])
  next
    case False
    with 1 have "CHR '' '' \<notin> set (str_nat (n div 10))" by simp
    with False show ?thesis
      using digit_char_not_space [of "n mod 10"] by (simp add: str_nat.simps [of n])
  qed
qed

lemma append_sep_inject:
  assumes "c \<notin> set xs" and "c \<notin> set ys" and "xs @ c # r1 = ys @ c # r2"
  shows "xs = ys"
proof -
  have "takeWhile (\<lambda>x. x \<noteq> c) (xs @ c # r1) = xs" using assms(1) by (induction xs) auto
  moreover have "takeWhile (\<lambda>x. x \<noteq> c) (ys @ c # r2) = ys" using assms(2) by (induction ys) auto
  ultimately show ?thesis using assms(3) by simp
qed

lemma numbered_inject:
  "str_nat i @ '' '' @ r1 = str_nat j @ '' '' @ r2 \<Longrightarrow> i = j"
proof -
  assume "str_nat i @ '' '' @ r1 = str_nat j @ '' '' @ r2"
  then have "str_nat i @ CHR '' '' # r1 = str_nat j @ CHR '' '' # r2" by simp
  with str_nat_no_space str_nat_no_space have "str_nat i = str_nat j"
    by (rule append_sep_inject)
  then show ?thesis by (rule str_nat_inject)
qed

lemma clip_label_inject: "clip_label e i c = clip_label e j d \<Longrightarrow> i = j"
  unfolding clip_label_def clip_title_def by (simp only: append_assoc) (rule numbered_inject)


lemma distinct_numbered_labels:
  assumes "\<And>i j x y. f i x = f j y \<Longrightarrow> i = j"
  shows "distinct (map fst (map (\<lambda>(i, x). (f i x, x)) (enumerate 0 xs)))"
proof -
  have "inj_on (\<lambda>(i, x). f i x) (set (enumerate 0 xs))"
  proof (rule inj_onI, clarify)
    fix i x j y
    assume "(i, x) \<in> set (enumerate 0 xs)" and "(j, y) \<in> set (enumerate 0 xs)"
      and eq: "f i x = f j y"
    then have "x = xs ! i" and "y = xs ! j" by (auto simp: in_set_enumerate_eq)
    moreover from eq have "i = j" by (rule assms)
    ultimately show "i = j \<and> x = y" by simp
  qed
  then have "distinct (map (\<lambda>(i, x). f i x) (enumerate 0 xs))"
    by (simp add: distinct_map)
  moreover have "fst \<circ> (\<lambda>(i, x). (f i x, x)) = (\<lambda>(i, x). f i x)"
    by (rule ext) (simp add: case_prod_beta)
  ultimately show ?thesis by simp
qed

lemma dict_keys_distinct: "distinct (map fst kvs) \<Longrightarrow> dict_keys kvs = map fst kvs"
  by (simp add: dict_keys_def distinct_remdups_id)

lemma dict_lookup_distinct:
  "distinct (map fst kvs) \<Longrightarrow> (k, v) \<in> set kvs \<Longrightarrow> dict_lookup kvs k = Some v"
  unfolding dict_lookup_def by (rule map_of_is_SomeI) (simp_all add: rev_map [symmetric])

lemma map_filter_Some:
  "(\<And>x. x \<in> set xs \<Longrightarrow> f (h x) = Some (g x)) \<Longrightarrow> List.map_filter f (map h xs) = map g xs"
  by (induction xs) simp_all

lemma dict_values_distinct: "distinct (map fst kvs) \<Longrightarrow> dict_values kvs = map snd kvs"
proof -
  assume d: "distinct (map fst kvs)"
  have "List.map_filter (dict_lookup kvs) (map fst kvs) = map snd kvs"
  proof (rule map_filter_Some)
    fix p assume "p \<in> set kvs"
    then have "(fst p, snd p) \<in> set kvs" by simp
    with d show "dict_lookup kvs (fst p) = Some (snd p)" by (rule dict_lookup_distinct)
  qed
  with d show ?thesis by (simp add: dict_values_def dict_keys_distinct)
qed

lemma distinct_clips_dict: "distinct (map fst (clips_dict e clips))"
  unfolding clips_dict_def by (rule distinct_numbered_labels) (rule clip_label_inject)


lemma dict_values_clips_dict: "dict_values (clips_dict e clips) = clips"
proof -
  have "snd \<circ> (\<lambda>(idx, c). (clip_label e idx c, c)) = snd"
    by (rule ext) (simp add: case_prod_beta)
  then have "map snd (clips_dict e clips) = clips"
    by (simp add: clips_dict_def)
  then show ?thesis by (simp add: dict_values_distinct distinct_clips_dict)
qed

lemma dict_keys_clips_dict:
  "dict_keys (clips_dict e clips) = map (\<lambda>(idx, c). clip_label e idx c) (enumerate 0 clips)"
proof -
  have "fst \<circ> (\<lambda>(idx, c). (clip_label e idx c, c)) = (\<lambda>(idx, c). clip_label e idx c)"
    by (rule ext) (simp add: case_prod_beta)
  then have "map fst (clips_dict e clips) = map (\<lambda>(idx, c). clip_label e idx c) (enumerate 0 clips)"
    by (simp add: clips_dict_def)
  moreover have "dict_keys (clips_dict e clips) = map fst (clips_dict e clips)"
    using distinct_clips_dict by (rule dict_keys_distinct)
  ultimately show ?thesis by (rule trans [rotated])
qed



section \<open>The tokens of a label of the merger\<close>




lemma split_ne_nonempty: "split_ne sep s \<noteq> []"
  by (simp add: split_ne.simps [of sep s] split: option.splits)



section \<open>Concrete runs of the screens\<close>

lemmas screen_simps =
  run_simps user_follows_def play_stream_selected_def play_clip_selected_def
  merge_with_online_def merge_step_def live_label_def live_title_def live_info_def
  stream_bob_def str_int_def str_nat_digit str_nat_120 digit_char_def
  str_in_def str_split_def list_get_def split_ne.simps follow_bob_def env_bob_def
  clip_a_def video_a_def env_clip_def channel_42_def clips_dict_def videos_dict_def
  clip_label_def clip_title_def clip_info_def video_label_def dict_values_def

section \<open>The cache of followed channels\<close>

lemma user_follows_first:
  "cached_user_follows st = None \<Longrightarrow>
   user_follows e st = (Ret (follows e),
     st\<lparr>trace := trace st @ [FetchFollows], cached_user_follows := Some (follows e)\<rparr>)"
  by (simp add: user_follows_def)

lemma user_follows_cached:
  "cached_user_follows st = Some (f # fs) \<Longrightarrow> user_follows e st = (Ret (f # fs), st)"
  by (simp add: user_follows_def)

lemma user_follows_empty:
  "cached_user_follows st = Some [] \<Longrightarrow>
   user_follows e st = (Ret (follows e),
     st\<lparr>trace := trace st @ [FetchFollows], cached_user_follows := Some (follows e)\<rparr>)"
  by (simp add: user_follows_def)

text \<open>
  Claim C4 on the code. \<open>if not self._user_follows\<close> also holds for a collection that was
  fetched and is empty, so every access fetches again. First two accesses in a row; then a
  run from the main menu in which the user opens the list of follows (empty), answers with
  something that is not in it, confirms the informational screen, and opens the list
  again: \<open>FetchFollows\<close> is in the trace twice.
\<close>

theorem user_follows_empty_refetch:
  "bind (user_follows example_env) (\<lambda>_. user_follows example_env) (initial_state [])
     = (Ret [], \<lparr>replies = [], trace = [FetchFollows, FetchFollows],
                  cached_user_follows = Some []\<rparr>) \<and>
   show_menu example_env (Suc (Suc (Suc (Suc (Suc (Suc 0))))))
     (initial_state [''- All follows'', ''x'', ''Option 'x' selected not found.'',
                     ''- All follows''])
     = (NoReply,
        \<lparr>replies = [],
         trace = [MenuShown [''- All follows'', ''- Live followed''] ''twitch:'' False None,
                  FetchFollows, FetchFollowedStreamsLive,
                  MenuShown [] (quoted_prompt ''twitch'' ''follows'') True
                    (Some ''- Offline and Online channels''),
                  LogWarning ''Option [bold yellow]x[/] not found.'',
                  MenuShown [''Option 'x' selected not found.''] ''twitch:'' False None,
                  MenuShown [''- All follows'', ''- Live followed''] ''twitch:'' False None,
                  FetchFollows, FetchFollowedStreamsLive,
                  MenuShown [] (quoted_prompt ''twitch'' ''follows'') True
                    (Some ''- Offline and Online channels'')],
         cached_user_follows = Some []\<rparr>)"
  by (simp add: screen_simps)

section \<open>The Clips screen\<close>

lemma bind_never_returns:
  "(\<And>x s. \<forall>y. fst (f x s) \<noteq> Ret y) \<Longrightarrow> \<forall>y. fst (bind m f st) \<noteq> Ret y"
  by (cases "m st" rule: prod.exhaust) (auto simp: bind_def split: result.splits)

lemma show_info_never_returns: "\<forall>y. fst (show_info e n user_id st) \<noteq> Ret y"
proof (induction n arbitrary: st)
  case 0
  show ?case by simp
next
  case (Suc n)
  show ?case
    unfolding show_info.simps Let_def
    by (intro bind_never_returns Suc.IH)
qed

lemma bind_no_return:
  fixes m :: "'a act" and f :: "'a \<Rightarrow> 'a act"
  shows "\<forall>y. fst (m st) \<noteq> Ret y \<Longrightarrow> bind m f st = m st"
  by (cases "m st" rule: prod.exhaust) (auto simp: bind_def split: result.splits)

text \<open>
  Claim C5. When the fetch gives no clips, \<open>show_clips\<close> is the no-results message
  followed by the Info screen of the same channel. The Info screen never returns to its
  caller (\<open>show_info_never_returns\<close>), so the \<open>show_items\<close> over the empty list of
  clips that follows in the source is never reached.
\<close>

theorem show_clips_no_results:
  assumes "get_clips e (broadcaster_id channel) = []" and "clips = None \<or> clips = Some []"
  shows "show_clips e (Suc n) channel clips st
     = bind (show_no_results_message
               (''No available clips from followed channel: '' @ broadcaster_name channel))
         (\<lambda>_. show_info e n (broadcaster_id channel))
         (st\<lparr>trace := trace st @
              [LogDebug (''Getting [green bold]clips[/] from channel [red bold]''
                         @ broadcaster_name channel @ ''[/]''),
               FetchClips (broadcaster_id channel)]\<rparr>)"
proof -
  let ?nores = "bind (show_no_results_message
               (''No available clips from followed channel: '' @ broadcaster_name channel))
         (\<lambda>_. show_info e n (broadcaster_id channel))"
  have never: "\<forall>y. fst (?nores s) \<noteq> Ret y" for s
    by (intro bind_never_returns show_info_never_returns)
  have "show_clips e (Suc n) channel clips st
      = bind ?nores (\<lambda>_. bind (show_items e (dict_keys (clips_dict e []))
                    (Some (show_info e n (broadcaster_id channel)))
                    (quoted_prompt (broadcaster_name channel) ''clips'') True
                    (Some (''Showing '' @ str_nat (length (dict_keys (clips_dict e ([]::TwitchClip list)))) @ '' clips'')))
              (\<lambda>selected.
                bind (lift (dict_get (clips_dict e []) selected)) (\<lambda>clip.
                  bind (play_clip_selected e clip) (\<lambda>_.
                    show_clips e n channel (Some (dict_values (clips_dict e [])))))))
          (st\<lparr>trace := trace st @
              [LogDebug (''Getting [green bold]clips[/] from channel [red bold]''
                         @ broadcaster_name channel @ ''[/]''),
               FetchClips (broadcaster_id channel)]\<rparr>)"
    using assms by (auto simp: bind_assoc bind_emit clips_dict_def Let_def)
  also have "\<dots> = ?nores (st\<lparr>trace := trace st @
              [LogDebug (''Getting [green bold]clips[/] from channel [red bold]''
                         @ broadcaster_name channel @ ''[/]''),
               FetchClips (broadcaster_id channel)]\<rparr>)"
    using never by (rule bind_no_return)
  finally show ?thesis .
qed

text \<open>
  Channel 42 has no clips: the message is shown and answered, then the Info screen of
  channel 42 is shown and waits; the trace has no menu of clips.
\<close>

theorem show_clips_no_results_witness:
  "get_clips example_env (broadcaster_id channel_42) = [] \<and>
   show_clips example_env (Suc (Suc 0)) channel_42 None (initial_state [''ok''])
     = (NoReply,
        \<lparr>replies = [],
         trace = [LogDebug ''Getting [green bold]clips[/] from channel [red bold]42[/]'',
                  FetchClips ''42'',
                  LogWarning ''No available clips from followed channel: 42'',
                  MenuShownPlain [''No available clips from followed channel: 42''],
                  FetchInformation ''42'', FetchIsOnline ''42'',
                  MenuShown [''Category: g'', ''Last Stream: t'', ''--------------'',
                             ''Videos: Get videos'', ''Clips: Get clips'']
                    (quoted_prompt ''42'' ''info'') True (Some ''Channel 42 information'')],
         cached_user_follows = None\<rparr>)"
proof -
  have h: "get_clips example_env (broadcaster_id channel_42) = []"
    by (simp add: example_env_def)
  have "show_clips example_env (Suc (Suc 0)) channel_42 None (initial_state [''ok''])
      = bind (show_no_results_message
               (''No available clips from followed channel: '' @ broadcaster_name channel_42))
         (\<lambda>_. show_info example_env (Suc 0) (broadcaster_id channel_42))
         (initial_state [''ok'']\<lparr>trace := trace (initial_state [''ok'']) @
              [LogDebug (''Getting [green bold]clips[/] from channel [red bold]''
                         @ broadcaster_name channel_42 @ ''[/]''),
               FetchClips (broadcaster_id channel_42)]\<rparr>)"
    using h by (intro show_clips_no_results) simp_all
  also have "\<dots> = (NoReply,
        \<lparr>replies = [],
         trace = [LogDebug ''Getting [green bold]clips[/] from channel [red bold]42[/]'',
                  FetchClips ''42'',
                  LogWarning ''No available clips from followed channel: 42'',
                  MenuShownPlain [''No available clips from followed channel: 42''],
                  FetchInformation ''42'', FetchIsOnline ''42'',
                  MenuShown [''Category: g'', ''Last Stream: t'', ''--------------'',
                             ''Videos: Get videos'', ''Clips: Get clips'']
                    (quoted_prompt ''42'' ''info'') True (Some ''Channel 42 information'')],
         cached_user_follows = None\<rparr>)"
    by (simp add: screen_simps)
  finally show ?thesis using h by blast
qed

lemma clips_dict_Nil_iff: "clips_dict e cs = [] \<longleftrightarrow> cs = []"
  by (simp add: clips_dict_def enumerate_eq_zip)

lemma show_clips_draw:
  assumes "cs \<noteq> []"
  shows "show_clips e (Suc m) channel (Some cs) st
     = bind (show_items e (dict_keys (clips_dict e cs))
               (Some (show_info e m (broadcaster_id channel)))
               (quoted_prompt (broadcaster_name channel) ''clips'') True
               (Some (''Showing '' @ str_nat (length (dict_keys (clips_dict e cs))) @ '' clips'')))
         (\<lambda>selected.
            bind (lift (dict_get (clips_dict e cs) selected)) (\<lambda>clip.
              bind (play_clip_selected e clip) (\<lambda>_. show_clips e m channel (Some cs)))) st"
proof -
  from assms obtain c cs' where cs: "cs = c # cs'" by (cases cs) auto
  have "clips_dict e (c # cs') \<noteq> []" by (simp add: clips_dict_Nil_iff)
  then show ?thesis
    unfolding cs show_clips.simps Let_def
    by (simp add: dict_values_clips_dict)
qed

lemma show_clips_fetch:
  assumes "clips = None \<or> clips = Some []" and "get_clips e (broadcaster_id channel) \<noteq> []"
  shows "show_clips e (Suc m) channel clips st
     = show_clips e (Suc m) channel (Some (get_clips e (broadcaster_id channel)))
         (st\<lparr>trace := trace st @
              [LogDebug (''Getting [green bold]clips[/] from channel [red bold]''
                         @ broadcaster_name channel @ ''[/]''),
               FetchClips (broadcaster_id channel)]\<rparr>)"
proof -
  from assms(2) obtain c cs' where cs: "get_clips e (broadcaster_id channel) = c # cs'"
    by (cases "get_clips e (broadcaster_id channel)") auto
  show ?thesis
    using assms(1) unfolding cs show_clips.simps
    by (auto simp: bind_assoc bind_emit cs)
qed


lemma dict_lookup_key:
  assumes "distinct (map fst kvs)" and "k \<in> set (dict_keys kvs)"
  shows "\<exists>v. dict_lookup kvs k = Some v"
proof -
  from assms have "k \<in> fst ` set kvs" by (simp add: dict_keys_distinct)
  then obtain v where "(k, v) \<in> set kvs" by force
  with assms(1) have "dict_lookup kvs k = Some v" by (rule dict_lookup_distinct)
  then show ?thesis ..
qed

lemma play_clip_selected_run:
  "play_clip_selected e clip st
     = (Ret (), st\<lparr>trace := trace st @
         [LogInfo (''[yellow]Opening[/] clip [red bold]'' @ take 40 (c_title clip)
                   @ ''...[/] with [green]'' @ player_name e @ ''[/]''),
          Notification (''Opening clip <b>'' @ c_broadcaster_name clip @ ''@'' @ c_title clip
                        @ ''</b>''),
          Launch (c_url clip)]\<rparr>)"
  by (simp add: play_clip_selected_def bind_emit emit_def)

lemma show_clips_cached_draws:
  fixes e :: env and channel :: BroadcasterInfo and cs :: "TwitchClip list"
  defines "labels \<equiv> dict_keys (clips_dict e cs)"
  defines "prompt \<equiv> quoted_prompt (broadcaster_name channel) ''clips''"
  defines "mesg \<equiv> Some (''Showing '' @ str_nat (length labels) @ '' clips'')"
  defines "shown \<equiv> MenuShown labels prompt True mesg"
  assumes "cs \<noteq> []"
    and "set (replies st) \<subseteq> set labels"
    and "set (replies st) \<subseteq> set (menu_items e True labels)"
    and "menu_back e \<notin> set (replies st)"
    and "length (replies st) < n"
  shows "\<exists>st'. show_clips e n channel (Some cs) st = (NoReply, st') \<and>
           count_list (trace st') (FetchClips (broadcaster_id channel))
             = count_list (trace st) (FetchClips (broadcaster_id channel)) \<and>
           count_list (trace st') shown = count_list (trace st) shown + length (replies st) + 1"
  using assms(6-9)
proof (induction "replies st" arbitrary: st n)
  case Nil
  from Nil.prems(4) obtain m where n: "n = Suc m" by (cases n) auto
  have draw: "show_clips e (Suc m) channel (Some cs) st
     = bind (show_items e labels (Some (show_info e m (broadcaster_id channel))) prompt True mesg)
         (\<lambda>selected.
            bind (lift (dict_get (clips_dict e cs) selected)) (\<lambda>clip.
              bind (play_clip_selected e clip) (\<lambda>_. show_clips e m channel (Some cs)))) st"
    unfolding labels_def prompt_def mesg_def using assms(5) by (rule show_clips_draw)
  from Nil.hyps have "replies st = []" by simp
  then have "show_clips e n channel (Some cs) st = (NoReply, st\<lparr>trace := trace st @ [shown]\<rparr>)"
    unfolding n draw by (simp add: bind_def show_items_no_reply shown_def)
  moreover have "FetchClips (broadcaster_id channel) \<noteq> shown" by (simp add: shown_def)
  ultimately show ?case using Nil.hyps [symmetric] by simp
next
  case (Cons r rs)
  from Cons.prems(4) obtain m where n: "n = Suc m" by (cases n) auto
  have draw: "show_clips e (Suc m) channel (Some cs) st
     = bind (show_items e labels (Some (show_info e m (broadcaster_id channel))) prompt True mesg)
         (\<lambda>selected.
            bind (lift (dict_get (clips_dict e cs) selected)) (\<lambda>clip.
              bind (play_clip_selected e clip) (\<lambda>_. show_clips e m channel (Some cs)))) st"
    unfolding labels_def prompt_def mesg_def using assms(5) by (rule show_clips_draw)
  from Cons.hyps(2) have rep: "replies st = r # rs" by simp
  let ?st1 = "st\<lparr>replies := rs, trace := trace st @ [shown]\<rparr>"
  from rep Cons.prems have r_label: "r \<in> set labels" and r_menu: "r \<in> set (menu_items e True labels)"
    and r_back: "r \<noteq> menu_back e" by auto
  from distinct_clips_dict r_label obtain clip where clip: "dict_lookup (clips_dict e cs) r = Some clip"
    unfolding labels_def by (blast dest: dict_lookup_key)
  have sel: "show_items e labels (Some (show_info e m (broadcaster_id channel))) prompt True mesg st
      = (Ret r, ?st1)"
    using rep r_menu r_back by (simp add: show_items_member ret_def shown_def)
  let ?st2 = "?st1\<lparr>trace := trace ?st1 @
         [LogInfo (''[yellow]Opening[/] clip [red bold]'' @ take 40 (c_title clip)
                   @ ''...[/] with [green]'' @ player_name e @ ''[/]''),
          Notification (''Opening clip <b>'' @ c_broadcaster_name clip @ ''@'' @ c_title clip
                        @ ''</b>''),
          Launch (c_url clip)]\<rparr>"
  have step: "show_clips e n channel (Some cs) st = show_clips e m channel (Some cs) ?st2"
    unfolding n draw
    by (simp add: bind_def sel dict_get_def clip lift_def ret_def play_clip_selected_run)
  have "rs = replies ?st2" by simp
  moreover have "set (replies ?st2) \<subseteq> set labels" "set (replies ?st2) \<subseteq> set (menu_items e True labels)"
    "menu_back e \<notin> set (replies ?st2)" "length (replies ?st2) < m"
    using rep Cons.prems n by auto
  ultimately obtain st' where run: "show_clips e m channel (Some cs) ?st2 = (NoReply, st')"
    and f: "count_list (trace st') (FetchClips (broadcaster_id channel))
             = count_list (trace ?st2) (FetchClips (broadcaster_id channel))"
    and d: "count_list (trace st') shown = count_list (trace ?st2) shown + length (replies ?st2) + 1"
    using Cons.hyps(1) [of ?st2 m] by blast
  have "count_list (trace ?st2) (FetchClips (broadcaster_id channel))
      = count_list (trace st) (FetchClips (broadcaster_id channel))"
    by (simp add: shown_def)
  moreover have "count_list (trace ?st2) shown = count_list (trace st) shown + 1"
    by (simp add: shown_def)
  ultimately show ?case using step run f d rep by simp
qed

text \<open>
  Claim C6. Entered without a list, for a channel that has clips, and answered with clip
  labels only (none of them the back sentinel), the Clips screen requests the clips once,
  however many clips are played: after \<open>k\<close> answers the menu of clips has been drawn
  \<open>k + 1\<close> times, the last draw waiting for an answer, and the trace has gained one
  \<open>FetchClips\<close>. The fuel only has to exceed the number of answers.
\<close>

theorem show_clips_fetches_once:
  fixes e :: env and channel :: BroadcasterInfo
  defines "cs \<equiv> get_clips e (broadcaster_id channel)"
  defines "labels \<equiv> dict_keys (clips_dict e cs)"
  defines "shown \<equiv> MenuShown labels (quoted_prompt (broadcaster_name channel) ''clips'') True
                     (Some (''Showing '' @ str_nat (length labels) @ '' clips''))"
  assumes "cs \<noteq> []"
    and "set (replies st) \<subseteq> set labels"
    and "set (replies st) \<subseteq> set (menu_items e True labels)"
    and "menu_back e \<notin> set (replies st)"
    and "length (replies st) < n"
  shows "\<exists>st'. show_clips e n channel None st = (NoReply, st') \<and>
           count_list (trace st') (FetchClips (broadcaster_id channel))
             = count_list (trace st) (FetchClips (broadcaster_id channel)) + 1 \<and>
           count_list (trace st') shown = count_list (trace st) shown + length (replies st) + 1"
proof -
  from assms(8) obtain m where n: "n = Suc m" by (cases n) auto
  let ?st0 = "st\<lparr>trace := trace st @
              [LogDebug (''Getting [green bold]clips[/] from channel [red bold]''
                         @ broadcaster_name channel @ ''[/]''),
               FetchClips (broadcaster_id channel)]\<rparr>"
  have first: "show_clips e n channel None st = show_clips e n channel (Some cs) ?st0"
    unfolding n cs_def using assms(4) by (intro show_clips_fetch) (simp_all add: cs_def)
  have "\<exists>st'. show_clips e n channel (Some cs) ?st0 = (NoReply, st') \<and>
           count_list (trace st') (FetchClips (broadcaster_id channel))
             = count_list (trace ?st0) (FetchClips (broadcaster_id channel)) \<and>
           count_list (trace st') shown = count_list (trace ?st0) shown + length (replies ?st0) + 1"
    unfolding shown_def labels_def
    using assms(4-8) by (intro show_clips_cached_draws) (simp_all add: labels_def)
  then obtain st' where run: "show_clips e n channel (Some cs) ?st0 = (NoReply, st')"
    and f: "count_list (trace st') (FetchClips (broadcaster_id channel))
             = count_list (trace ?st0) (FetchClips (broadcaster_id channel))"
    and d: "count_list (trace st') shown = count_list (trace ?st0) shown + length (replies ?st0) + 1"
    by blast
  have "count_list (trace ?st0) (FetchClips (broadcaster_id channel))
      = count_list (trace st) (FetchClips (broadcaster_id channel)) + 1" by simp
  moreover have "count_list (trace ?st0) shown = count_list (trace st) shown"
    by (simp add: shown_def)
  ultimately show ?thesis using first run f d by simp
qed

text \<open>
  One clip, played once: one request, two draws of the menu.
\<close>

theorem show_clips_fetches_once_witness:
  "get_clips env_clip (broadcaster_id channel_42) = [clip_a] \<and>
   dict_keys (clips_dict env_clip [clip_a]) = [''0 - funny createor: ann (o5 views | C 2024)''] \<and>
   menu_items env_clip True [''0 - funny createor: ann (o5 views | C 2024)'']
     = [''0 - funny createor: ann (o5 views | C 2024)''] \<and>
   menu_back env_clip = ''Back'' \<and>
   show_clips env_clip (Suc (Suc 0)) channel_42 None
     (initial_state [''0 - funny createor: ann (o5 views | C 2024)''])
     = (NoReply,
        \<lparr>replies = [],
         trace = [LogDebug ''Getting [green bold]clips[/] from channel [red bold]42[/]'',
                  FetchClips ''42'',
                  MenuShown [''0 - funny createor: ann (o5 views | C 2024)'']
                    (quoted_prompt ''42'' ''clips'') True (Some ''Showing 1 clips''),
                  LogInfo ''[yellow]Opening[/] clip [red bold]funny...[/] with [green]mpv[/]'',
                  Notification ''Opening clip <b>bob@funny</b>'',
                  Launch ''https://clips.twitch.tv/x'',
                  MenuShown [''0 - funny createor: ann (o5 views | C 2024)'']
                    (quoted_prompt ''42'' ''clips'') True (Some ''Showing 1 clips'')],
         cached_user_follows = None\<rparr>) \<and>
   count_list
     (trace (snd (show_clips env_clip (Suc (Suc 0)) channel_42 None
                    (initial_state [''0 - funny createor: ann (o5 views | C 2024)'']))))
     (FetchClips (broadcaster_id channel_42)) = 1"
proof -
  let ?L = "''0 - funny createor: ann (o5 views | C 2024)''"
  let ?st = "initial_state [?L]"
  have cs: "get_clips env_clip (broadcaster_id channel_42) = [clip_a]"
    by (simp add: env_clip_def)
  have keys: "dict_keys (clips_dict env_clip [clip_a]) = [?L]"
    by (simp add: screen_simps)
  have menu: "menu_items env_clip True [?L] = [?L]"
    by (simp add: env_clip_def example_env_def)
  have bk: "menu_back env_clip = ''Back''"
    by (simp add: env_clip_def example_env_def)
  have run: "show_clips env_clip (Suc (Suc 0)) channel_42 None ?st
     = (NoReply,
        \<lparr>replies = [],
         trace = [LogDebug ''Getting [green bold]clips[/] from channel [red bold]42[/]'',
                  FetchClips ''42'',
                  MenuShown [?L] (quoted_prompt ''42'' ''clips'') True (Some ''Showing 1 clips''),
                  LogInfo ''[yellow]Opening[/] clip [red bold]funny...[/] with [green]mpv[/]'',
                  Notification ''Opening clip <b>bob@funny</b>'',
                  Launch ''https://clips.twitch.tv/x'',
                  MenuShown [?L] (quoted_prompt ''42'' ''clips'') True (Some ''Showing 1 clips'')],
         cached_user_follows = None\<rparr>)"
    by (simp add: screen_simps)
  have h1: "get_clips env_clip (broadcaster_id channel_42) \<noteq> []" by (simp add: cs)
  have h2: "set (replies ?st)
      \<subseteq> set (dict_keys (clips_dict env_clip (get_clips env_clip (broadcaster_id channel_42))))"
    by (simp add: cs keys initial_state_def)
  have h3: "set (replies ?st)
      \<subseteq> set (menu_items env_clip True
               (dict_keys (clips_dict env_clip (get_clips env_clip (broadcaster_id channel_42)))))"
    by (simp add: cs keys menu initial_state_def)
  have h4: "menu_back env_clip \<notin> set (replies ?st)"
    by (simp add: bk initial_state_def)
  have h5: "length (replies ?st) < Suc (Suc 0)" by (simp add: initial_state_def)
  from show_clips_fetches_once [OF h1 h2 h3 h4 h5]
  obtain st' where "show_clips env_clip (Suc (Suc 0)) channel_42 None ?st = (NoReply, st')"
    and "count_list (trace st') (FetchClips (broadcaster_id channel_42))
           = count_list (trace ?st) (FetchClips (broadcaster_id channel_42)) + 1"
    by blast
  then have "count_list (trace (snd (show_clips env_clip (Suc (Suc 0)) channel_42 None ?st)))
      (FetchClips (broadcaster_id channel_42)) = 1"
    by (simp add: initial_state_def)
  with cs keys menu bk run show ?thesis by blast
qed

section \<open>From a label back to its record\<close>




section \<open>The Follows screen\<close>






end
